theory Spec2Isabelle
  imports Complex_Main
begin

section \<open>Python values and arithmetic\<close>

text \<open>
  The durations the program computes with are Python floats. Every finite float is a
  rational number, so durations are modelled as exact numbers (\<open>real\<close>): the model does
  not round the results of float division and multiplication. Clip length, clip count and
  overlap come from integer spin boxes and are Python ints (\<open>int\<close>).
\<close>

datatype py_exn = ZeroDivisionError | OSError | SyntaxError

text \<open>\<open>int(x)\<close> on a float truncates towards zero.\<close>

definition py_int :: "real \<Rightarrow> int" where
  "py_int x = (if 0 \<le> x then \<lfloor>x\<rfloor> else \<lceil>x\<rceil>)"

text \<open>\<open>x % y\<close> on floats with \<open>y \<noteq> 0\<close>: the remainder has the sign of the divisor.\<close>

definition py_mod :: "real \<Rightarrow> real \<Rightarrow> real" where
  "py_mod x y = x - y * of_int \<lfloor>x / y\<rfloor>"

text \<open>\<open>str(n)\<close> and the format \<open>{n:03d}\<close> for a non-negative int.\<close>

fun show_nat :: "nat \<Rightarrow> string" where
  "show_nat n = (if n < 10 then [char_of (48 + n)]
                 else show_nat (n div 10) @ [char_of (48 + n mod 10)])"

declare show_nat.simps [simp del]

definition show_int :: "int \<Rightarrow> string" where
  "show_int i = (if i < 0 then CHR ''-'' # show_nat (nat (- i)) else show_nat (nat i))"

definition pad3 :: "nat \<Rightarrow> string" where
  "pad3 n = replicate (3 - length (show_nat n)) (CHR ''0'') @ show_nat n"

definition lower_char :: "char \<Rightarrow> char" where
  "lower_char c = (if 65 \<le> (of_char c :: nat) \<and> (of_char c :: nat) \<le> 90
                   then char_of ((of_char c :: nat) + 32) else c)"

subsection \<open>\<open>eval\<close> on a frame-rate text\<close>

definition is_digit :: "char \<Rightarrow> bool" where
  "is_digit c = (48 \<le> (of_char c :: nat) \<and> (of_char c :: nat) \<le> 57)"

definition digit_val :: "char \<Rightarrow> nat" where
  "digit_val c = of_char c - 48"

text \<open>
  A decimal integer literal of Python 3: digits only, with no leading zero unless every
  digit is zero.
\<close>

definition int_literal :: "string \<Rightarrow> nat option" where
  "int_literal s =
     (if s \<noteq> [] \<and> list_all is_digit s \<and> (list_all (\<lambda>c. c = CHR ''0'') s \<or> hd s \<noteq> CHR ''0'')
      then Some (foldl (\<lambda>a c. 10 * a + digit_val c) 0 s) else None)"

definition parse_fraction :: "string \<Rightarrow> (nat \<times> nat) option" where
  "parse_fraction s =
     (case dropWhile (\<lambda>c. c \<noteq> CHR ''/'') s of
        [] \<Rightarrow> None
      | _ # b \<Rightarrow>
          (case int_literal (takeWhile (\<lambda>c. c \<noteq> CHR ''/'') s) of
             None \<Rightarrow> None
           | Some n \<Rightarrow> (case int_literal b of None \<Rightarrow> None | Some d \<Rightarrow> Some (n, d))))"

datatype py_value = Number real | NonNumber

text \<open>
  \<open>eval(s)\<close>, the builtin that evaluates any Python expression. On a text \<open>num/den\<close> of two
  decimal integer literals it performs Python's true division, which raises
  \<open>ZeroDivisionError\<close> for \<open>den = 0\<close>. What the builtin makes of every other text is the
  parameter \<open>generic\<close>.
\<close>

definition py_eval :: "(string \<Rightarrow> py_exn + py_value) \<Rightarrow> string \<Rightarrow> py_exn + py_value" where
  "py_eval generic s =
     (case parse_fraction s of
        Some (n, d) \<Rightarrow> if d = 0 then Inl ZeroDivisionError else Inr (Number (of_nat n / of_nat d))
      | None \<Rightarrow> generic s)"

section \<open>Subprocesses, commands and events\<close>

record completed =
  returncode :: int
  stdout :: string
  stderr :: string

text \<open>
  What \<open>subprocess.run\<close> does: it returns a completed process, raises \<open>TimeoutExpired\<close>, or
  raises another exception (with its text).
\<close>

datatype proc_result = Completed completed | TimeoutExpired | Raised string

record clip_cmd =
  cmd_ss :: int
  cmd_input :: string
  cmd_t :: real
  cmd_codec :: "string list"
  cmd_output :: string

datatype cmd = FfmpegVersion | Ffprobe string | Ffmpeg clip_cmd

record video_info =
  duration :: real
  size_bytes :: int
  video_codec :: "string option"
  audio_codec :: "string option"
  width :: "int option"
  height :: "int option"
  fps :: py_value

text \<open>
  The texts of the status and error signals, with the values their format strings print.
\<close>

datatype status_msg =
    Analyzing
  | VideoSummary video_info
  | Creating int
  | Stopping
  | Processing nat int int real
  | Succeeded nat
  | Stopped nat

datatype error_msg =
    FfmpegValidationFailed string
  | AnalyzeFailed
  | InvalidDuration
  | TooShort real int
  | ClipTimeout nat
  | ClipFailed nat string
  | NoClips
  | Unexpected py_exn

text \<open>
  What a job does, in order: the calls of \<open>subprocess.run\<close> and \<open>os.makedirs\<close>, and the
  signals \<open>progress\<close>, \<open>status_update\<close>, \<open>error\<close>, \<open>clip_completed\<close> (clip number, output
  path, size in bytes) and \<open>finished\<close> (output directory, clips created).
\<close>

datatype action =
    Subprocess cmd
  | Makedirs string
  | Progress int
  | Status status_msg
  | Error error_msg
  | ClipCompleted nat string nat
  | Finished string nat

section \<open>FFmpegValidator\<close>

definition not_found :: "(bool \<times> string \<times> string option) \<times> action list" where
  "not_found = ((False, ''FFmpeg not found in system PATH'', None), [])"

definition check_ffmpeg ::
  "string option \<Rightarrow> proc_result \<Rightarrow> (bool \<times> string \<times> string option) \<times> action list" where
  "check_ffmpeg which ver =
     (case which of
        None \<Rightarrow> not_found
      | Some ffmpeg_path \<Rightarrow>
          if ffmpeg_path = [] then not_found
          else
            (case ver of
               Completed r \<Rightarrow>
                 if returncode r = 0
                 then ((True, ''FFmpeg found: '' @ takeWhile (\<lambda>c. c \<noteq> CHR 0x0A) (stdout r),
                        Some ffmpeg_path), [Subprocess FfmpegVersion])
                 else ((False, ''FFmpeg test failed: '' @ stderr r, None),
                       [Subprocess FfmpegVersion])
             | TimeoutExpired \<Rightarrow>
                 ((False, ''FFmpeg check timed out'', None), [Subprocess FfmpegVersion])
             | Raised s \<Rightarrow>
                 ((False, ''FFmpeg check error: '' @ s, None), [Subprocess FfmpegVersion])))"

text \<open>
  The parsed output of ffprobe. \<open>float(format_info.get('duration', 0))\<close> finds the key
  missing, or raises on its text, or converts it.
\<close>

datatype 'a conv = Missing | Unconvertible | Converted 'a

record stream =
  codec_type :: "string option"
  codec_name :: "string option"
  s_width :: "int option"
  s_height :: "int option"
  r_frame_rate :: "string option"

record probe_data =
  format_duration :: "real conv"
  format_size :: "int conv"
  streams :: "stream list"

definition conv_or :: "'a \<Rightarrow> 'a conv \<Rightarrow> 'a option" where
  "conv_or d c = (case c of Missing \<Rightarrow> Some d | Unconvertible \<Rightarrow> None | Converted x \<Rightarrow> Some x)"

fun find_streams ::
  "stream list \<Rightarrow> stream option \<Rightarrow> stream option \<Rightarrow> stream option \<times> stream option" where
  "find_streams [] video_stream audio_stream = (video_stream, audio_stream)"
| "find_streams (s # rest) video_stream audio_stream =
     (if codec_type s = Some ''video'' \<and> video_stream = None
      then find_streams rest (Some s) audio_stream
      else if codec_type s = Some ''audio'' \<and> audio_stream = None
      then find_streams rest video_stream (Some s)
      else find_streams rest video_stream audio_stream)"

text \<open>
  \<open>get_video_info\<close>: \<open>result\<close> is what running ffprobe did and \<open>json\<close> what \<open>json.loads\<close> made
  of its output (\<open>None\<close> when it raises). Every exception ends in \<open>return None\<close>.
\<close>

definition get_video_info ::
  "(string \<Rightarrow> py_exn + py_value) \<Rightarrow> string \<Rightarrow> proc_result \<Rightarrow> probe_data option
     \<Rightarrow> video_info option \<times> action list" where
  "get_video_info generic file_path result json =
     (case result of
        Completed r \<Rightarrow>
          if returncode r = 0 then
            (case json of
               None \<Rightarrow> None
             | Some data \<Rightarrow>
                 (case conv_or 0 (format_duration data) of
                    None \<Rightarrow> None
                  | Some d \<Rightarrow>
                      (case conv_or 0 (format_size data) of
                         None \<Rightarrow> None
                       | Some sz \<Rightarrow>
                           (case find_streams (streams data) None None of
                              (video_stream, audio_stream) \<Rightarrow>
                                (case (case video_stream of
                                         None \<Rightarrow> Inr (Number 0)
                                       | Some v \<Rightarrow>
                                           py_eval generic
                                             (case r_frame_rate v of None \<Rightarrow> ''0/1'' | Some s \<Rightarrow> s)) of
                                   Inl x \<Rightarrow> None
                                 | Inr f \<Rightarrow>
                                     Some \<lparr>duration = d, size_bytes = sz,
                                       video_codec = (case video_stream of
                                          None \<Rightarrow> Some ''unknown'' | Some v \<Rightarrow> codec_name v),
                                       audio_codec = (case audio_stream of
                                          None \<Rightarrow> Some ''none'' | Some a \<Rightarrow> codec_name a),
                                       width = (case video_stream of
                                          None \<Rightarrow> Some 0 | Some v \<Rightarrow> s_width v),
                                       height = (case video_stream of
                                          None \<Rightarrow> Some 0 | Some v \<Rightarrow> s_height v),
                                       fps = f\<rparr>)))))
          else None
      | TimeoutExpired \<Rightarrow> None
      | Raised s \<Rightarrow> None,
      [Subprocess (Ffprobe file_path)])"

section \<open>SplitWorker\<close>

record worker =
  input_file :: string
  clip_duration :: int
  num_clips :: int
  output_dir :: string
  overlap :: int
  use_copy :: bool
  quality :: string

text \<open>
  What the worker meets while it runs: the results of its subprocesses, the file system
  after each clip, and the value of \<open>should_stop\<close> (set by the other thread at any time)
  each time the worker reads it: at the top of iteration \<open>i\<close>, and after the loop. The
  program only ever sets the flag, so a real run reads \<open>True\<close> from some read on; the
  model does not need this and allows any values.
\<close>

record clip_env =
  clip_proc :: proc_result
  out_exists :: bool
  out_size :: nat

record env =
  which_ffmpeg :: "string option"
  version_run :: proc_result
  probe_run :: proc_result
  probe_json :: "probe_data option"
  generic_eval :: "string \<Rightarrow> py_exn + py_value"
  makedirs_ok :: bool
  path_join :: "string \<Rightarrow> string \<Rightarrow> string"
  stop_at :: "nat \<Rightarrow> bool"
  stop_end :: bool
  clip_run :: "nat \<Rightarrow> clip_env"

text \<open>Lines 137-145: the number of clips, where the divisions can raise.\<close>

definition actual_clips :: "worker \<Rightarrow> real \<Rightarrow> py_exn + int" where
  "actual_clips w total_duration =
     (if overlap w > 0 then
        (if clip_duration w - overlap w = 0 then Inl ZeroDivisionError
         else Inr (min (num_clips w)
                 (py_int ((total_duration + of_int (overlap w))
                            / of_int (clip_duration w - overlap w)))))
      else
        (if clip_duration w = 0 then Inl ZeroDivisionError
         else Inr (min (num_clips w)
                 (if py_mod total_duration (of_int (clip_duration w)) > 0
                  then py_int (total_duration / of_int (clip_duration w)) + 1
                  else py_int (total_duration / of_int (clip_duration w))))))"

text \<open>Lines 160-165: the window of iteration \<open>i\<close>.\<close>

definition clip_start :: "worker \<Rightarrow> nat \<Rightarrow> int" where
  "clip_start w i =
     (if overlap w > 0 then max 0 (int i * (clip_duration w - overlap w))
      else int i * clip_duration w)"

definition clip_end :: "worker \<Rightarrow> real \<Rightarrow> nat \<Rightarrow> real" where
  "clip_end w total_duration i =
     min (of_int (clip_start w i + clip_duration w)) total_duration"

definition quality_settings :: "string \<Rightarrow> string list option" where
  "quality_settings q =
     (if q = ''fast'' then Some [''-preset'', ''ultrafast'', ''-crf'', ''28'']
      else if q = ''medium'' then Some [''-preset'', ''medium'', ''-crf'', ''23'']
      else if q = ''high'' then Some [''-preset'', ''slow'', ''-crf'', ''18'']
      else None)"

definition output_path :: "env \<Rightarrow> worker \<Rightarrow> nat \<Rightarrow> string" where
  "output_path e w i = path_join e (output_dir w) (''clip_'' @ pad3 (i + 1) @ ''.mp4'')"

definition build_cmd :: "env \<Rightarrow> worker \<Rightarrow> real \<Rightarrow> nat \<Rightarrow> clip_cmd" where
  "build_cmd e w total_duration i =
     \<lparr>cmd_ss = clip_start w i,
      cmd_input = input_file w,
      cmd_t = clip_end w total_duration i - of_int (clip_start w i),
      cmd_codec =
        (if use_copy w then [''-c'', ''copy'', ''-avoid_negative_ts'', ''make_zero'']
         else [''-c:v'', ''libx264'', ''-c:a'', ''aac'', ''-b:a'', ''128k'']
                @ (case quality_settings (quality w) of
                     None \<Rightarrow> [''-preset'', ''medium'', ''-crf'', ''23'']
                   | Some qs \<Rightarrow> qs)),
      cmd_output = output_path e w i\<rparr>"

text \<open>Lines 215-226: run the command and verify the output file.\<close>

datatype clip_outcome = ClipOk nat | ClipTimedOut | ClipException string

definition execute_clip :: "clip_env \<Rightarrow> clip_outcome" where
  "execute_clip c =
     (case clip_proc c of
        TimeoutExpired \<Rightarrow> ClipTimedOut
      | Raised s \<Rightarrow> ClipException s
      | Completed r \<Rightarrow>
          if returncode r \<noteq> 0 then ClipException (''FFmpeg error: '' @ stderr r)
          else if out_exists c \<and> out_size c > 1024 then ClipOk (out_size c)
          else ClipException ''Output file is missing or too small'')"

definition progress_percent :: "nat \<Rightarrow> int \<Rightarrow> int" where
  "progress_percent i n = py_int (of_nat (i + 1) / of_int n * 100)"

text \<open>
  Lines 154-237, the loop over \<open>range(actual_clips)\<close>, as a recursion over the indices
  still to visit; it returns what it did and \<open>clips_created\<close>. A \<open>break\<close> returns, a
  \<open>continue\<close> goes to the next index.
\<close>

fun run_loop ::
  "env \<Rightarrow> worker \<Rightarrow> real \<Rightarrow> int \<Rightarrow> nat list \<Rightarrow> nat \<Rightarrow> action list \<times> nat" where
  "run_loop e w total_duration n [] clips_created = ([], clips_created)"
| "run_loop e w total_duration n (i # rest) clips_created =
     (if stop_at e i then ([Status Stopping], clips_created)
      else if of_int (clip_start w i) \<ge> total_duration then ([], clips_created)
      else if clip_end w total_duration i - of_int (clip_start w i) < 1
      then run_loop e w total_duration n rest clips_created
      else
        (case execute_clip (clip_run e i) of
           ClipTimedOut \<Rightarrow>
             ([Status (Processing (i + 1) n (clip_start w i) (clip_end w total_duration i)),
               Subprocess (Ffmpeg (build_cmd e w total_duration i)),
               Error (ClipTimeout (i + 1))], clips_created)
         | ClipException s \<Rightarrow>
             ([Status (Processing (i + 1) n (clip_start w i) (clip_end w total_duration i)),
               Subprocess (Ffmpeg (build_cmd e w total_duration i)),
               Error (ClipFailed (i + 1) s)], clips_created)
         | ClipOk sz \<Rightarrow>
             apfst (\<lambda>tr.
                 [Status (Processing (i + 1) n (clip_start w i) (clip_end w total_duration i)),
                  Subprocess (Ffmpeg (build_cmd e w total_duration i)),
                  ClipCompleted (i + 1) (output_path e w i) sz,
                  Progress (progress_percent i n)] @ tr)
               (run_loop e w total_duration n rest (clips_created + 1))))"

text \<open>Lines 239-245: what the job reports after the loop.\<close>

definition run_finish :: "env \<Rightarrow> worker \<Rightarrow> nat \<Rightarrow> action list" where
  "run_finish e w clips_created =
     (if \<not> stop_end e \<and> clips_created > 0
      then [Status (Succeeded clips_created), Finished (output_dir w) clips_created]
      else if clips_created = 0 then [Error NoClips]
      else [Status (Stopped clips_created)])"

text \<open>
  Lines 110-134: validation, probing and the output directory. The result is what was
  done and the duration of the video when the job goes on.
\<close>

definition run_prepare :: "env \<Rightarrow> worker \<Rightarrow> action list \<times> real option" where
  "run_prepare e w =
     (case check_ffmpeg (which_ffmpeg e) (version_run e) of
        ((ffmpeg_ok, ffmpeg_msg, ffmpeg_path), tr0) \<Rightarrow>
          if \<not> ffmpeg_ok then (tr0 @ [Error (FfmpegValidationFailed ffmpeg_msg)], None)
          else
            (case get_video_info (generic_eval e) (input_file w) (probe_run e) (probe_json e) of
               (None, tr1) \<Rightarrow> (tr0 @ [Status Analyzing] @ tr1 @ [Error AnalyzeFailed], None)
             | (Some info, tr1) \<Rightarrow>
                 if duration info \<le> 0
                 then (tr0 @ [Status Analyzing] @ tr1 @ [Error InvalidDuration], None)
                 else if \<not> makedirs_ok e
                 then (tr0 @ [Status Analyzing] @ tr1
                         @ [Status (VideoSummary info), Makedirs (output_dir w),
                            Error (Unexpected OSError)], None)
                 else (tr0 @ [Status Analyzing] @ tr1
                         @ [Status (VideoSummary info), Makedirs (output_dir w)],
                       Some (duration info))))"

text \<open>Lines 136-245, for a video of the given duration.\<close>

definition run_clips :: "env \<Rightarrow> worker \<Rightarrow> real \<Rightarrow> action list" where
  "run_clips e w total_duration =
     (case actual_clips w total_duration of
        Inl x \<Rightarrow> [Error (Unexpected x)]
      | Inr n \<Rightarrow>
          if n = 0 then [Error (TooShort total_duration (clip_duration w))]
          else
            (case run_loop e w total_duration n [0..<nat n] 0 of
               (tr, clips_created) \<Rightarrow> [Status (Creating n)] @ tr @ run_finish e w clips_created))"

definition run :: "env \<Rightarrow> worker \<Rightarrow> action list" where
  "run e w =
     (case run_prepare e w of
        (tr, None) \<Rightarrow> tr
      | (tr, Some total_duration) \<Rightarrow> tr @ run_clips e w total_duration)"

section \<open>VideoSplitterApp.start_splitting\<close>

record app =
  app_input_file :: "string option"
  app_output_dir :: "string option"
  duration_input :: int
  num_clips_input :: int
  overlap_input :: int
  mode_index :: int
  quality_text :: string

text \<open>
  What \<open>start_splitting\<close> meets: whether the input file exists, the FFmpeg check, the free
  bytes of the output disk (\<open>None\<close> when \<open>disk_usage\<close> raises), the answer to the
  low-disk-space question, and the time stamp.
\<close>

record app_env =
  file_exists :: bool
  app_which :: "string option"
  app_version_run :: proc_result
  disk_free :: "int option"
  continue_anyway :: bool
  timestamp :: string
  app_path_join :: "string \<Rightarrow> string \<Rightarrow> string"

text \<open>How \<open>start_splitting\<close> ends: one of its message boxes, or the worker it starts.\<close>

datatype start_result =
    NoFile
  | NoFolder
  | FileMissing
  | FfmpegError string
  | InvalidOverlap
  | LowDiskSpaceDeclined
  | WorkerStarted worker

definition falsy :: "string option \<Rightarrow> bool" where
  "falsy s = (case s of None \<Rightarrow> True | Some x \<Rightarrow> x = [])"

definition start_splitting :: "app \<Rightarrow> app_env \<Rightarrow> start_result \<times> action list" where
  "start_splitting a e =
     (if falsy (app_input_file a) then (NoFile, [])
      else if falsy (app_output_dir a) then (NoFolder, [])
      else if \<not> file_exists e then (FileMissing, [])
      else
        (case check_ffmpeg (app_which e) (app_version_run e) of
           ((ffmpeg_ok, ffmpeg_msg, ffmpeg_path), tr) \<Rightarrow>
             if \<not> ffmpeg_ok then (FfmpegError ffmpeg_msg, tr)
             else if overlap_input a \<ge> duration_input a then (InvalidOverlap, tr)
             else if (case disk_free e of None \<Rightarrow> False | Some free \<Rightarrow> free < 1024 ^ 3)
                     \<and> \<not> continue_anyway e
             then (LowDiskSpaceDeclined, tr)
             else
               (WorkerStarted
                  \<lparr>input_file = the (app_input_file a),
                   clip_duration = duration_input a,
                   num_clips = num_clips_input a,
                   output_dir =
                     app_path_join e (the (app_output_dir a))
                       (''clips_'' @ show_int (duration_input a) @ ''s_'' @ timestamp e),
                   overlap = overlap_input a,
                   use_copy = (mode_index a = 0),
                   quality = map lower_char (quality_text a)\<rparr>, tr)))"

section \<open>Reading a trace\<close>

text \<open>The clips a trace starts to process: clip number, start and end of each.\<close>

fun attempted :: "action list \<Rightarrow> (nat \<times> int \<times> real) list" where
  "attempted [] = []"
| "attempted (Status (Processing k n s t) # tr) = (k, s, t) # attempted tr"
| "attempted (a # tr) = attempted tr"

text \<open>The clip commands a trace hands to \<open>subprocess.run\<close>.\<close>

fun clip_commands :: "action list \<Rightarrow> clip_cmd list" where
  "clip_commands [] = []"
| "clip_commands (Subprocess (Ffmpeg c) # tr) = c # clip_commands tr"
| "clip_commands (a # tr) = clip_commands tr"

text \<open>The \<open>error\<close> and \<open>finished\<close> signals of a trace, in order.\<close>

fun terminal_events :: "action list \<Rightarrow> action list" where
  "terminal_events [] = []"
| "terminal_events (Error m # tr) = Error m # terminal_events tr"
| "terminal_events (Finished d c # tr) = Finished d c # terminal_events tr"
| "terminal_events (a # tr) = terminal_events tr"

fun progress_values :: "action list \<Rightarrow> int list" where
  "progress_values [] = []"
| "progress_values (Progress p # tr) = p # progress_values tr"
| "progress_values (a # tr) = progress_values tr"

fun completed_clips :: "action list \<Rightarrow> nat list" where
  "completed_clips [] = []"
| "completed_clips (ClipCompleted k p sz # tr) = k # completed_clips tr"
| "completed_clips (a # tr) = completed_clips tr"

text \<open>The verification of line 221 on what the subprocess left behind.\<close>

definition verified :: "clip_env \<Rightarrow> bool" where
  "verified c = (out_exists c \<and> out_size c > 1024)"

definition exit_code :: "clip_env \<Rightarrow> int option" where
  "exit_code c = (case clip_proc c of Completed r \<Rightarrow> Some (returncode r) | _ \<Rightarrow> None)"

section \<open>Example jobs\<close>

definition ok_run :: proc_result where
  "ok_run = Completed \<lparr>returncode = 0, stdout = [], stderr = []\<rparr>"

text \<open>A clip that FFmpeg wrote, and one where FFmpeg exits with code 1.\<close>

definition clip_written :: clip_env where
  "clip_written = \<lparr>clip_proc = ok_run, out_exists = True, out_size = 2048\<rparr>"

definition clip_rejected :: clip_env where
  "clip_rejected =
     \<lparr>clip_proc = Completed \<lparr>returncode = 1, stdout = [], stderr = ''Invalid data''\<rparr>,
      out_exists = False, out_size = 0\<rparr>"

text \<open>A clip where FFmpeg exits with code 0 and leaves a file of 100 bytes.\<close>

definition clip_stub :: clip_env where
  "clip_stub = \<lparr>clip_proc = ok_run, out_exists = True, out_size = 100\<rparr>"

definition video_stream_with :: "string \<Rightarrow> stream" where
  "video_stream_with rate =
     \<lparr>codec_type = Some ''video'', codec_name = Some ''h264'', s_width = Some 1920,
      s_height = Some 1080, r_frame_rate = Some rate\<rparr>"

definition probe_with :: "real \<Rightarrow> string \<Rightarrow> probe_data" where
  "probe_with d rate =
     \<lparr>format_duration = Converted d, format_size = Converted 1000000,
      streams = [video_stream_with rate]\<rparr>"

text \<open>An \<open>eval\<close> that rejects every text outside \<open>num/den\<close> as a syntax error.\<close>

definition eval_raises :: "string \<Rightarrow> py_exn + py_value" where
  "eval_raises s = Inl SyntaxError"

text \<open>
  A machine with FFmpeg, a video of \<open>d\<close> seconds, every clip written, and nobody pressing
  stop.
\<close>

definition example_env :: "real \<Rightarrow> env" where
  "example_env d =
     \<lparr>which_ffmpeg = Some ''/usr/bin/ffmpeg'',
      version_run = Completed \<lparr>returncode = 0, stdout = ''ffmpeg version 6.0'', stderr = []\<rparr>,
      probe_run = ok_run,
      probe_json = Some (probe_with d ''30/1''),
      generic_eval = eval_raises,
      makedirs_ok = True,
      path_join = (\<lambda>a b. a @ ''/'' @ b),
      stop_at = (\<lambda>i. False),
      stop_end = False,
      clip_run = (\<lambda>i. clip_written)\<rparr>"

definition example_worker :: "int \<Rightarrow> int \<Rightarrow> int \<Rightarrow> worker" where
  "example_worker len n ov =
     \<lparr>input_file = ''in.mp4'', clip_duration = len, num_clips = n, output_dir = ''out'',
      overlap = ov, use_copy = True, quality = ''medium''\<rparr>"

definition example_app :: "int \<Rightarrow> int \<Rightarrow> int \<Rightarrow> app" where
  "example_app len n ov =
     \<lparr>app_input_file = Some ''in.mp4'', app_output_dir = Some ''out'', duration_input = len,
      num_clips_input = n, overlap_input = ov, mode_index = 0, quality_text = ''Medium''\<rparr>"

definition example_app_env :: app_env where
  "example_app_env =
     \<lparr>file_exists = True,
      app_which = Some ''/usr/bin/ffmpeg'',
      app_version_run = Completed \<lparr>returncode = 0, stdout = ''ffmpeg version 6.0'', stderr = []\<rparr>,
      disk_free = Some (8 * 1024 ^ 3),
      continue_anyway = False,
      timestamp = ''20240101_120000'',
      app_path_join = (\<lambda>a b. a @ ''/'' @ b)\<rparr>"

text \<open>A video of 150 seconds where FFmpeg fails on the third clip.\<close>

definition third_clip_fails :: env where
  "third_clip_fails =
     (example_env 150)\<lparr>clip_run := (\<lambda>i. if i = 2 then clip_rejected else clip_written)\<rparr>"

text \<open>The same video where FFmpeg exits with code 0 on the second clip and writes a stub.\<close>

definition second_clip_stub :: env where
  "second_clip_stub =
     (example_env 150)\<lparr>clip_run := (\<lambda>i. if i = 1 then clip_stub else clip_written)\<rparr>"

text \<open>
  Stop is pressed so that the worker first sees it at the top of iteration \<open>k\<close>, and
  stop is pressed while the last clip is being encoded.
\<close>

definition stop_seen_at :: "nat \<Rightarrow> env" where
  "stop_seen_at k = (example_env 150)\<lparr>stop_at := (\<lambda>i. k \<le> i), stop_end := True\<rparr>"

definition stop_during_last :: env where
  "stop_during_last = (example_env 150)\<lparr>stop_end := True\<rparr>"

section \<open>Basic facts\<close>

lemma attempted_append [simp]: "attempted (xs @ ys) = attempted xs @ attempted ys"
  by (induction xs rule: attempted.induct) simp_all

lemma clip_commands_append [simp]: "clip_commands (xs @ ys) = clip_commands xs @ clip_commands ys"
  by (induction xs rule: clip_commands.induct) simp_all

lemma terminal_events_append [simp]:
  "terminal_events (xs @ ys) = terminal_events xs @ terminal_events ys"
  by (induction xs rule: terminal_events.induct) simp_all

lemma progress_values_append [simp]:
  "progress_values (xs @ ys) = progress_values xs @ progress_values ys"
  by (induction xs rule: progress_values.induct) simp_all

lemma completed_clips_append [simp]:
  "completed_clips (xs @ ys) = completed_clips xs @ completed_clips ys"
  by (induction xs rule: completed_clips.induct) simp_all

subsection \<open>One clip\<close>

lemma execute_clip_ok_iff:
  "execute_clip c = ClipOk sz \<longleftrightarrow> exit_code c = Some 0 \<and> verified c \<and> sz = out_size c"
  by (auto simp: execute_clip_def exit_code_def verified_def split: proc_result.splits)

subsection \<open>The loop\<close>

lemma run_loop_count:
  "snd (run_loop e w D n xs c) = c + length (completed_clips (fst (run_loop e w D n xs c)))"
  by (induction xs arbitrary: c) (auto split: clip_outcome.splits)

lemma run_loop_completed:
  "k \<in> set (completed_clips (fst (run_loop e w D n xs c))) \<Longrightarrow>
     0 < k \<and> k - 1 \<in> set xs \<and> (\<exists>sz. execute_clip (clip_run e (k - 1)) = ClipOk sz)"
  by (induction xs arbitrary: c) (auto split: if_splits clip_outcome.splits)

lemma run_loop_attempted:
  "(k, s, t) \<in> set (attempted (fst (run_loop e w D n xs c))) \<Longrightarrow>
     0 < k \<and> k - 1 \<in> set xs \<and> s = clip_start w (k - 1) \<and> t = clip_end w D (k - 1)
       \<and> of_int s < D \<and> 1 \<le> t - of_int s"
  by (induction xs arbitrary: c) (auto split: if_splits clip_outcome.splits)

lemma run_loop_progress:
  "p \<in> set (progress_values (fst (run_loop e w D n xs c))) \<Longrightarrow>
     \<exists>i\<in>set xs. p = progress_percent i n"
  by (induction xs arbitrary: c) (auto split: if_splits clip_outcome.splits)

lemma run_loop_length_attempted:
  "length (attempted (fst (run_loop e w D n xs c))) \<le> length xs"
  by (induction xs arbitrary: c) (auto split: clip_outcome.splits intro: le_SucI)

lemma run_loop_clip_commands:
  "length (clip_commands (fst (run_loop e w D n xs c)))
     = length (attempted (fst (run_loop e w D n xs c)))"
  by (induction xs arbitrary: c) (auto split: clip_outcome.splits)

lemma run_loop_sorted_attempted:
  "sorted_wrt (<) xs \<Longrightarrow> sorted_wrt (<) (map fst (attempted (fst (run_loop e w D n xs c))))"
proof (induction xs arbitrary: c)
  case Nil
  then show ?case by simp
next
  case (Cons i rest)
  have later: "Suc i < k"
    if "(k, s, t) \<in> set (attempted (fst (run_loop e w D n rest c')))" for k s t c'
  proof -
    from that have "0 < k" "k - 1 \<in> set rest"
      using run_loop_attempted by blast+
    with Cons.prems show ?thesis by fastforce
  qed
  from Cons show ?case
    by (auto split: clip_outcome.splits dest: later)
qed

lemma run_loop_sorted_completed:
  "sorted_wrt (<) xs \<Longrightarrow> sorted_wrt (<) (completed_clips (fst (run_loop e w D n xs c)))"
proof (induction xs arbitrary: c)
  case Nil
  then show ?case by simp
next
  case (Cons i rest)
  have later: "i + 1 < k" if "k \<in> set (completed_clips (fst (run_loop e w D n rest c')))" for k c'
  proof -
    from that have "0 < k" "k - 1 \<in> set rest"
      using run_loop_completed by blast+
    with Cons.prems show ?thesis by fastforce
  qed
  from Cons show ?case
    by (auto split: clip_outcome.splits dest: later)
qed

lemma progress_percent_mono:
  assumes "0 < n" "i \<le> j"
  shows "progress_percent i n \<le> progress_percent j n"
proof -
  have "(of_nat (i + 1) :: real) / of_int n * 100 \<le> of_nat (j + 1) / of_int n * 100"
    using assms by (simp add: divide_right_mono)
  moreover have "0 \<le> (of_nat (i + 1) :: real) / of_int n * 100"
    using assms by simp
  ultimately show ?thesis
    by (simp add: progress_percent_def py_int_def floor_mono)
qed

lemma run_loop_sorted_progress:
  "0 < n \<Longrightarrow> sorted_wrt (<) xs \<Longrightarrow> sorted (progress_values (fst (run_loop e w D n xs c)))"
proof (induction xs arbitrary: c)
  case Nil
  then show ?case by simp
next
  case (Cons i rest)
  have later: "progress_percent i n \<le> p"
    if "p \<in> set (progress_values (fst (run_loop e w D n rest c')))" for p c'
  proof -
    from that obtain j where "j \<in> set rest" "p = progress_percent j n"
      using run_loop_progress by blast
    with Cons.prems show ?thesis
      by (auto intro!: progress_percent_mono)
  qed
  from Cons show ?case
    by (auto split: clip_outcome.splits dest: later)
qed

subsection \<open>Before the loop\<close>

lemma check_ffmpeg_trace:
  "check_ffmpeg which ver = (r, tr) \<Longrightarrow> tr = [] \<or> tr = [Subprocess FfmpegVersion]"
  by (auto simp: check_ffmpeg_def not_found_def split: option.splits proc_result.splits if_splits)

lemma get_video_info_trace:
  "get_video_info g f r j = (x, tr) \<Longrightarrow> tr = [Subprocess (Ffprobe f)]"
  by (auto simp: get_video_info_def)

lemma run_prepare_quiet:
  "attempted (fst (run_prepare e w)) = []"
  "progress_values (fst (run_prepare e w)) = []"
  "completed_clips (fst (run_prepare e w)) = []"
  "clip_commands (fst (run_prepare e w)) = []"
  by (auto simp: run_prepare_def split: prod.splits option.splits
      dest!: check_ffmpeg_trace get_video_info_trace)

lemma run_prepare_Some:
  assumes "snd (run_prepare e w) = Some D"
  shows "0 < D" and "terminal_events (fst (run_prepare e w)) = []"
  using assms
  by (auto simp: run_prepare_def split: prod.splits option.splits if_splits
      dest!: check_ffmpeg_trace get_video_info_trace)

lemma run_cases:
  "run e w = fst (run_prepare e w) @
     (case snd (run_prepare e w) of None \<Rightarrow> [] | Some D \<Rightarrow> run_clips e w D)"
  by (simp add: run_def split: prod.splits option.splits)

lemma run_clips_cases:
  "run_clips e w D =
     (case actual_clips w D of
        Inl x \<Rightarrow> [Error (Unexpected x)]
      | Inr n \<Rightarrow>
          if n = 0 then [Error (TooShort D (clip_duration w))]
          else [Status (Creating n)] @ fst (run_loop e w D n [0..<nat n] 0)
                 @ run_finish e w (snd (run_loop e w D n [0..<nat n] 0)))"
  by (simp add: run_clips_def split: sum.splits prod.splits)

lemma run_finish_quiet:
  "attempted (run_finish e w c) = []"
  "progress_values (run_finish e w c) = []"
  "completed_clips (run_finish e w c) = []"
  "clip_commands (run_finish e w c) = []"
  by (simp_all add: run_finish_def)

lemma run_clips_progress_sorted: "sorted (progress_values (run_clips e w D))"
proof (cases "actual_clips w D")
  case (Inl x)
  then show ?thesis by (simp add: run_clips_cases)
next
  case (Inr n)
  show ?thesis
  proof (cases "0 < n")
    case True
    then have "sorted (progress_values (fst (run_loop e w D n [0..<nat n] 0)))"
      by (intro run_loop_sorted_progress) (simp_all add: strict_sorted_iff)
    with Inr show ?thesis
      by (simp add: run_clips_cases run_finish_quiet)
  next
    case False
    then have "[0..<nat n] = []" by simp
    with Inr show ?thesis
      by (simp add: run_clips_cases run_finish_quiet)
  qed
qed

lemma run_clips_completed_sorted: "sorted_wrt (<) (completed_clips (run_clips e w D))"
proof (cases "actual_clips w D")
  case (Inl x)
  then show ?thesis by (simp add: run_clips_cases)
next
  case (Inr n)
  have "sorted_wrt (<) (completed_clips (fst (run_loop e w D n [0..<nat n] 0)))"
    by (intro run_loop_sorted_completed) simp
  with Inr show ?thesis
    by (simp add: run_clips_cases run_finish_quiet)
qed

text \<open>
  C8. Whatever the job meets, the progress percentages it emits never decrease and the
  clip numbers of its clip-completed signals strictly increase, in the order of emission.
\<close>

theorem progress_and_completions_ordered:
  "sorted (progress_values (run e w)) \<and> sorted_wrt (<) (completed_clips (run e w))"
  by (simp add: run_cases run_prepare_quiet run_clips_progress_sorted
      run_clips_completed_sorted split: option.splits)

theorem progress_and_completions_ordered_witness:
  "progress_values (run (example_env 100) (example_worker 30 10 0)) = [25, 50, 75, 100]
   \<and> completed_clips (run (example_env 100) (example_worker 30 10 0)) = [1, 2, 3, 4]
   \<and> sorted (progress_values (run (example_env 100) (example_worker 30 10 0)))
   \<and> sorted_wrt (<) (completed_clips (run (example_env 100) (example_worker 30 10 0)))"
proof -
  have "progress_values (run (example_env 100) (example_worker 30 10 0)) = [25, 50, 75, 100]"
    by code_simp
  moreover have "completed_clips (run (example_env 100) (example_worker 30 10 0)) = [1, 2, 3, 4]"
    by code_simp
  ultimately show ?thesis
    using progress_and_completions_ordered [of "example_env 100" "example_worker 30 10 0"]
    by simp
qed

subsection \<open>The counts a job reports\<close>

lemma run_prepare_no_count:
  "Finished d k \<notin> set (fst (run_prepare e w))"
  "Status (Stopped k) \<notin> set (fst (run_prepare e w))"
  by (auto simp: run_prepare_def split: prod.splits option.splits
      dest!: check_ffmpeg_trace get_video_info_trace)

lemma run_loop_no_count:
  "Finished d k \<notin> set (fst (run_loop e w D n xs c))"
  "Status (Stopped k) \<notin> set (fst (run_loop e w D n xs c))"
  by (induction xs arbitrary: c) (auto split: clip_outcome.splits)

lemma run_clips_completed:
  "completed_clips (run_clips e w D) =
     (case actual_clips w D of
        Inl x \<Rightarrow> []
      | Inr n \<Rightarrow> completed_clips (fst (run_loop e w D n [0..<nat n] 0)))"
  by (simp add: run_clips_cases run_finish_quiet split: sum.splits)

lemma run_clips_count:
  assumes "Finished d k \<in> set (run_clips e w D) \<or> Status (Stopped k) \<in> set (run_clips e w D)"
  shows "k = length (completed_clips (run_clips e w D))"
proof (cases "actual_clips w D")
  case (Inl x)
  with assms show ?thesis by (simp add: run_clips_cases)
next
  case (Inr n)
  let ?l = "run_loop e w D n [0..<nat n] 0"
  from assms Inr have "Finished d k \<in> set (run_finish e w (snd ?l))
      \<or> Status (Stopped k) \<in> set (run_finish e w (snd ?l))"
    by (auto simp: run_clips_cases run_loop_no_count split: if_splits)
  then have "k = snd ?l"
    by (auto simp: run_finish_def split: if_splits)
  with Inr show ?thesis
    using run_loop_count [of e w D n "[0..<nat n]" 0] by (simp add: run_clips_completed)
qed

lemma run_count:
  assumes "Finished d k \<in> set (run e w) \<or> Status (Stopped k) \<in> set (run e w)"
  shows "k = length (completed_clips (run e w))"
proof (cases "snd (run_prepare e w)")
  case None
  with assms show ?thesis by (simp add: run_cases run_prepare_no_count)
next
  case (Some D)
  with assms show ?thesis
    using run_clips_count [of d k e w D]
    by (simp add: run_cases run_prepare_no_count run_prepare_quiet)
qed

lemma run_completed_verified:
  assumes "k \<in> set (completed_clips (run e w))"
  shows "0 < k \<and> exit_code (clip_run e (k - 1)) = Some 0 \<and> verified (clip_run e (k - 1))"
proof -
  from assms obtain D n where "k \<in> set (completed_clips (fst (run_loop e w D n [0..<nat n] 0)))"
    by (auto simp: run_cases run_prepare_quiet run_clips_completed split: option.splits sum.splits)
  then have "0 < k" "\<exists>sz. execute_clip (clip_run e (k - 1)) = ClipOk sz"
    using run_loop_completed by blast+
  then show ?thesis
    by (auto simp: execute_clip_ok_iff)
qed

text \<open>
  C9. A clip counts as created exactly when FFmpeg exits with code 0 and the output file
  exists and is larger than 1024 bytes; with exit code 0 and a failed verification the
  clip fails with "Output file is missing or too small". Every clip-completed signal of a
  job belongs to a clip that passed this verification, and the count a job reports with
  \<open>finished\<close> or with the stopped status is the number of its clip-completed signals.
\<close>

theorem clip_counted_only_when_verified:
  "(execute_clip c = ClipOk sz \<longleftrightarrow> exit_code c = Some 0 \<and> verified c \<and> sz = out_size c)
   \<and> (exit_code c = Some 0 \<and> \<not> verified c
        \<longrightarrow> execute_clip c = ClipException ''Output file is missing or too small'')
   \<and> (\<forall>k\<in>set (completed_clips (run e w)).
        0 < k \<and> exit_code (clip_run e (k - 1)) = Some 0 \<and> verified (clip_run e (k - 1)))
   \<and> (\<forall>d k. Finished d k \<in> set (run e w) \<longrightarrow> k = length (completed_clips (run e w)))
   \<and> (\<forall>k. Status (Stopped k) \<in> set (run e w) \<longrightarrow> k = length (completed_clips (run e w)))"
proof -
  have "exit_code c = Some 0 \<and> \<not> verified c
      \<longrightarrow> execute_clip c = ClipException ''Output file is missing or too small''"
    by (auto simp: execute_clip_def exit_code_def verified_def split: proc_result.splits)
  then show ?thesis
    using run_completed_verified [of _ e w] run_count [of _ _ e w]
    by (simp add: execute_clip_ok_iff) blast
qed

theorem clip_counted_only_when_verified_witness:
  "exit_code clip_stub = Some 0 \<and> \<not> verified clip_stub
   \<and> execute_clip clip_stub = ClipException ''Output file is missing or too small''
   \<and> completed_clips (run second_clip_stub (example_worker 30 5 0)) = [1]
   \<and> exit_code (clip_run second_clip_stub 0) = Some 0 \<and> verified (clip_run second_clip_stub 0)"
proof -
  note t = clip_counted_only_when_verified
             [of clip_stub 100 second_clip_stub "example_worker 30 5 0"]
  have a: "exit_code clip_stub = Some 0 \<and> \<not> verified clip_stub"
    by code_simp
  have b: "completed_clips (run second_clip_stub (example_worker 30 5 0)) = [1]"
    by code_simp
  from t a have c: "execute_clip clip_stub = ClipException ''Output file is missing or too small''"
    by blast
  from t have "\<forall>k\<in>set (completed_clips (run second_clip_stub (example_worker 30 5 0))).
        0 < k \<and> exit_code (clip_run second_clip_stub (k - 1)) = Some 0
          \<and> verified (clip_run second_clip_stub (k - 1))"
    by blast
  then have d: "exit_code (clip_run second_clip_stub 0) = Some 0 \<and> verified (clip_run second_clip_stub 0)"
    unfolding b by simp
  from a b c d show ?thesis by blast
qed

text \<open>
  C1. Five clips are planned and FFmpeg exits with code 1 on the third. Clips 4 and 5 are
  never attempted, and the job emits the error signal for clip 3 and then also the
  finished signal, with the two clips created before the failure.
\<close>

theorem failed_clip_also_reports_finished:
  "map fst (attempted (run third_clip_fails (example_worker 30 5 0))) = [1, 2, 3]
   \<and> completed_clips (run third_clip_fails (example_worker 30 5 0)) = [1, 2]
   \<and> terminal_events (run third_clip_fails (example_worker 30 5 0))
       = [Error (ClipFailed 3 ''FFmpeg error: Invalid data''), Finished ''out'' 2]"
  by code_simp

subsection \<open>Starting a job\<close>

text \<open>
  C2, as the claim states it: a request with overlap equal to the clip length is rejected
  as an invalid overlap, and by then \<open>ffmpeg -version\<close> has been run as a subprocess.
\<close>

theorem overlap_rejected_after_ffmpeg_check:
  "duration_input (example_app 30 10 30) \<le> overlap_input (example_app 30 10 30)
   \<and> start_splitting (example_app 30 10 30) example_app_env
       = (InvalidOverlap, [Subprocess FfmpegVersion])"
  by code_simp

text \<open>
  C2, amended. For every request with overlap at least the clip length,
  \<open>start_splitting\<close> starts no worker, so that neither ffprobe nor a clip command runs:
  the only subprocess it can have run is the FFmpeg version check, which precedes the
  overlap validation. When the input file and the output folder are chosen, the file
  exists and the FFmpeg check passes, the request ends in the invalid-overlap warning.
\<close>

theorem overlap_rejected_before_worker:
  assumes "duration_input a \<le> overlap_input a"
  shows "(\<forall>w. fst (start_splitting a e) \<noteq> WorkerStarted w)
     \<and> (snd (start_splitting a e) = [] \<or> snd (start_splitting a e) = [Subprocess FfmpegVersion])
     \<and> (\<not> falsy (app_input_file a) \<and> \<not> falsy (app_output_dir a) \<and> file_exists e
          \<and> fst (fst (check_ffmpeg (app_which e) (app_version_run e)))
        \<longrightarrow> fst (start_splitting a e) = InvalidOverlap)"
  using assms
  by (auto simp: start_splitting_def split: prod.splits dest!: check_ffmpeg_trace)

theorem overlap_rejected_before_worker_witness:
  "duration_input (example_app 30 10 45) \<le> overlap_input (example_app 30 10 45)
   \<and> fst (start_splitting (example_app 30 10 45) example_app_env) = InvalidOverlap
   \<and> snd (start_splitting (example_app 30 10 45) example_app_env) = [Subprocess FfmpegVersion]"
proof -
  have a: "duration_input (example_app 30 10 45) \<le> overlap_input (example_app 30 10 45)"
    by code_simp
  have b: "\<not> falsy (app_input_file (example_app 30 10 45))
      \<and> \<not> falsy (app_output_dir (example_app 30 10 45)) \<and> file_exists example_app_env
      \<and> fst (fst (check_ffmpeg (app_which example_app_env) (app_version_run example_app_env)))"
    by code_simp
  have c: "snd (start_splitting (example_app 30 10 45) example_app_env) \<noteq> []"
    by code_simp
  from overlap_rejected_before_worker [OF a, of example_app_env] a b c
  show ?thesis by blast
qed

subsection \<open>The frame rate\<close>





subsection \<open>Windows of a valid request\<close>

lemma clip_start_nonneg:
  "0 < clip_duration w \<Longrightarrow> 0 \<le> clip_start w i"
  by (simp add: clip_start_def)

lemma clip_start_Suc:
  assumes "0 < clip_duration w" "overlap w < clip_duration w"
  shows "clip_start w i + 1 \<le> clip_start w (Suc i)"
proof (cases "0 < overlap w")
  case True
  with assms have "0 \<le> int i * (clip_duration w - overlap w)" by simp
  with True assms show ?thesis
    by (simp add: clip_start_def algebra_simps max_def)
next
  case False
  with assms show ?thesis
    by (simp add: clip_start_def algebra_simps)
qed

lemma clip_start_less:
  assumes "0 < clip_duration w" "overlap w < clip_duration w" "i < j"
  shows "clip_start w i < clip_start w j"
proof -
  have "clip_start w n < clip_start w (Suc n)" for n
    using clip_start_Suc [OF assms(1,2), of n] by simp
  then show ?thesis
    using assms(3) by (rule lift_Suc_mono_less)
qed

lemma clip_start_le:
  assumes "0 < clip_duration w" "overlap w < clip_duration w" "i \<le> j"
  shows "clip_start w i \<le> clip_start w j"
  using clip_start_less [OF assms(1,2), of i j] assms(3)
  by (cases "i = j") simp_all

lemma clip_window_bounds:
  assumes "0 < clip_duration w" "of_int (clip_start w i) < D"
  shows "of_int (clip_start w i) < clip_end w D i" and "clip_end w D i \<le> D"
  using assms by (simp_all add: clip_end_def)

lemma actual_clips_valid:
  assumes "0 < clip_duration w" "overlap w < clip_duration w"
  shows "\<exists>n. actual_clips w D = Inr n \<and> n \<le> num_clips w"
  using assms by (simp add: actual_clips_def)

subsection \<open>A job that nothing interrupts\<close>

lemma run_loop_append:
  assumes "\<forall>i\<in>set xs. \<not> stop_at e i \<and> of_int (clip_start w i) < D
             \<and> (\<exists>sz. execute_clip (clip_run e i) = ClipOk sz)"
  shows "run_loop e w D n (xs @ ys) c =
     (fst (run_loop e w D n xs c) @ fst (run_loop e w D n ys (snd (run_loop e w D n xs c))),
      snd (run_loop e w D n ys (snd (run_loop e w D n xs c))))"
  using assms
  by (induction xs arbitrary: c) (auto simp: apfst_def map_prod_def split: prod.splits)

lemma run_loop_quiet:
  assumes "\<forall>i\<in>set xs. \<not> stop_at e i \<and> (\<exists>sz. execute_clip (clip_run e i) = ClipOk sz)"
  shows "terminal_events (fst (run_loop e w D n xs c)) = []"
  using assms
  by (induction xs arbitrary: c) auto

lemma run_loop_windows:
  assumes "0 < clip_duration w" "overlap w < clip_duration w" "sorted_wrt (<) xs"
    and "\<forall>i\<in>set xs. \<not> stop_at e i \<and> (\<exists>sz. execute_clip (clip_run e i) = ClipOk sz)"
  shows "attempted (fst (run_loop e w D n xs c)) =
     map (\<lambda>i. (i + 1, clip_start w i, clip_end w D i))
       (filter (\<lambda>i. of_int (clip_start w i) < D
                  \<and> 1 \<le> clip_end w D i - of_int (clip_start w i)) xs)"
  using assms(3,4)
proof (induction xs arbitrary: c)
  case Nil
  then show ?case by simp
next
  case (Cons i rest)
  show ?case
  proof (cases "of_int (clip_start w i) < D")
    case True
    with Cons show ?thesis by auto
  next
    case False
    have "\<not> of_int (clip_start w j) < D" if "j \<in> set rest" for j
    proof -
      from that Cons.prems have "i \<le> j" by auto
      then have "clip_start w i \<le> clip_start w j"
        by (rule clip_start_le [OF assms(1,2)])
      with False show ?thesis by linarith
    qed
    then have "filter (\<lambda>i. of_int (clip_start w i) < D
                  \<and> 1 \<le> clip_end w D i - of_int (clip_start w i)) rest = []"
      by (simp add: filter_empty_conv)
    with False Cons.prems show ?thesis by simp
  qed
qed

lemma run_loop_completed_attempted:
  "set (completed_clips (fst (run_loop e w D n xs c)))
     \<subseteq> fst ` set (attempted (fst (run_loop e w D n xs c)))"
  by (induction xs arbitrary: c) (auto split: clip_outcome.splits)

subsection \<open>The clips of a job\<close>

lemma run_clips_attempted:
  "attempted (run_clips e w D) =
     (case actual_clips w D of
        Inl x \<Rightarrow> []
      | Inr n \<Rightarrow> attempted (fst (run_loop e w D n [0..<nat n] 0)))"
  by (simp add: run_clips_cases run_finish_quiet split: sum.splits)

lemma run_attempted:
  "attempted (run e w) =
     (case snd (run_prepare e w) of None \<Rightarrow> [] | Some D \<Rightarrow> attempted (run_clips e w D))"
  by (simp add: run_cases run_prepare_quiet split: option.splits)

lemma run_completed:
  "completed_clips (run e w) =
     (case snd (run_prepare e w) of None \<Rightarrow> [] | Some D \<Rightarrow> completed_clips (run_clips e w D))"
  by (simp add: run_cases run_prepare_quiet split: option.splits)

lemma run_clips_window:
  assumes "0 < clip_duration w" "(k, s, t) \<in> set (attempted (run_clips e w D))"
  shows "0 < k \<and> s = clip_start w (k - 1) \<and> t = clip_end w D (k - 1)
          \<and> 0 \<le> s \<and> of_int s < t \<and> t \<le> D \<and> 1 \<le> t - of_int s"
proof -
  from assms(2) obtain n where "(k, s, t) \<in> set (attempted (fst (run_loop e w D n [0..<nat n] 0)))"
    by (auto simp: run_clips_attempted split: sum.splits)
  then have *: "0 < k" "s = clip_start w (k - 1)" "t = clip_end w D (k - 1)"
      "of_int s < D" "1 \<le> t - of_int s"
    using run_loop_attempted by blast+
  with assms(1) show ?thesis
    using clip_window_bounds [of w "k - 1" D] clip_start_nonneg [of w "k - 1"] by simp
qed

lemma run_clips_sorted_numbers:
  "sorted_wrt (<) (map fst (attempted (run_clips e w D)))"
  by (simp add: run_clips_attempted run_loop_sorted_attempted split: sum.splits)

lemma run_clips_sorted_starts:
  assumes "0 < clip_duration w" "overlap w < clip_duration w"
  shows "sorted_wrt (<) (map (fst \<circ> snd) (attempted (run_clips e w D)))"
proof -
  let ?A = "attempted (run_clips e w D)"
  have "sorted_wrt (\<lambda>a b. fst a < fst b) ?A"
    using run_clips_sorted_numbers [of e w D] by (simp add: sorted_wrt_map)
  moreover have "fst (snd a) < fst (snd b)"
    if "a \<in> set ?A" "b \<in> set ?A" "fst a < fst b" for a b
  proof -
    obtain k s t k' s' t' where ab: "a = (k, s, t)" "b = (k', s', t')"
      by (metis prod_cases3)
    with that have "0 < k" "s = clip_start w (k - 1)" "s' = clip_start w (k' - 1)" "k < k'"
      using run_clips_window [OF assms(1)] by auto
    with ab show ?thesis
      using clip_start_less [OF assms, of "k - 1" "k' - 1"] by simp
  qed
  ultimately have "sorted_wrt (\<lambda>a b. fst (snd a) < fst (snd b)) ?A"
    by (rule sorted_wrt_mono_rel [rotated])
  then show ?thesis by (simp add: sorted_wrt_map)
qed

lemma run_clips_length:
  assumes "0 < clip_duration w" "overlap w < clip_duration w"
  shows "length (attempted (run_clips e w D)) \<le> nat (num_clips w)"
proof -
  from actual_clips_valid [OF assms] obtain n
    where n: "actual_clips w D = Inr n" "n \<le> num_clips w" by blast
  have "length (attempted (fst (run_loop e w D n [0..<nat n] 0))) \<le> length [0..<nat n]"
    by (rule run_loop_length_attempted)
  with n show ?thesis by (simp add: run_clips_attempted)
qed

lemma run_clips_completed_attempted:
  "set (completed_clips (run_clips e w D)) \<subseteq> fst ` set (attempted (run_clips e w D))"
proof (cases "actual_clips w D")
  case (Inl x)
  then show ?thesis by (simp add: run_clips_completed)
next
  case (Inr n)
  then show ?thesis
    using run_loop_completed_attempted [of e w D n "[0..<nat n]" 0]
    by (simp add: run_clips_attempted run_clips_completed)
qed

lemma run_clips_windows:
  assumes "0 < clip_duration w" "overlap w < clip_duration w"
    and "\<forall>i. \<not> stop_at e i \<and> (\<exists>sz. execute_clip (clip_run e i) = ClipOk sz)"
  shows "\<exists>n. actual_clips w D = Inr n \<and> attempted (run_clips e w D) =
     map (\<lambda>i. (i + 1, clip_start w i, clip_end w D i))
       (filter (\<lambda>i. of_int (clip_start w i) < D
                  \<and> 1 \<le> clip_end w D i - of_int (clip_start w i)) [0..<nat n])"
proof -
  from actual_clips_valid [OF assms(1,2)] obtain n
    where n: "actual_clips w D = Inr n" by blast
  have "attempted (fst (run_loop e w D n [0..<nat n] 0)) =
     map (\<lambda>i. (i + 1, clip_start w i, clip_end w D i))
       (filter (\<lambda>i. of_int (clip_start w i) < D
                  \<and> 1 \<le> clip_end w D i - of_int (clip_start w i)) [0..<nat n])"
    using assms by (intro run_loop_windows) simp_all
  with n show ?thesis by (simp add: run_clips_attempted)
qed

text \<open>
  C7. For a request with positive clip length and overlap below it, on a video whose
  probed duration is \<open>D\<close>: every clip the job starts to process has a positive number
  \<open>k\<close>, the window of index \<open>k - 1\<close>, and \<open>0 \<le> start < end \<le> D\<close> with a length of at least one
  second; clip numbers and start times strictly increase; there are at most \<open>num_clips\<close>
  of them; every completed clip is one of them. When nothing stops the job and every
  encode succeeds, the clips processed are exactly the windows of the planned indices
  that start inside the video and last at least one second, each as computed from its
  index: a shorter window is left out and the others are unchanged.
\<close>

theorem clip_windows_invariant:
  assumes "snd (run_prepare e w) = Some D"
    and "0 < clip_duration w" "overlap w < clip_duration w"
  shows "(\<forall>(k, s, t)\<in>set (attempted (run e w)).
            0 < k \<and> s = clip_start w (k - 1) \<and> t = clip_end w D (k - 1)
            \<and> 0 \<le> s \<and> of_int s < t \<and> t \<le> D \<and> 1 \<le> t - of_int s)
     \<and> sorted_wrt (<) (map fst (attempted (run e w)))
     \<and> sorted_wrt (<) (map (fst \<circ> snd) (attempted (run e w)))
     \<and> length (attempted (run e w)) \<le> nat (num_clips w)
     \<and> set (completed_clips (run e w)) \<subseteq> fst ` set (attempted (run e w))
     \<and> ((\<forall>i. \<not> stop_at e i \<and> (\<exists>sz. execute_clip (clip_run e i) = ClipOk sz)) \<longrightarrow>
          (\<exists>n. actual_clips w D = Inr n \<and> attempted (run e w) =
             map (\<lambda>i. (i + 1, clip_start w i, clip_end w D i))
               (filter (\<lambda>i. of_int (clip_start w i) < D
                          \<and> 1 \<le> clip_end w D i - of_int (clip_start w i)) [0..<nat n])))"
proof -
  have a: "attempted (run e w) = attempted (run_clips e w D)"
    and c: "completed_clips (run e w) = completed_clips (run_clips e w D)"
    using assms(1) by (simp_all add: run_attempted run_completed)
  have "\<forall>(k, s, t)\<in>set (attempted (run_clips e w D)).
            0 < k \<and> s = clip_start w (k - 1) \<and> t = clip_end w D (k - 1)
            \<and> 0 \<le> s \<and> of_int s < t \<and> t \<le> D \<and> 1 \<le> t - of_int s"
    using run_clips_window [OF assms(2)] by blast
  moreover note run_clips_sorted_numbers [of e w D]
    run_clips_sorted_starts [OF assms(2,3), of e D]
    run_clips_length [OF assms(2,3), of e D]
    run_clips_completed_attempted [of e w D]
  moreover have "(\<forall>i. \<not> stop_at e i \<and> (\<exists>sz. execute_clip (clip_run e i) = ClipOk sz)) \<longrightarrow>
          (\<exists>n. actual_clips w D = Inr n \<and> attempted (run_clips e w D) =
             map (\<lambda>i. (i + 1, clip_start w i, clip_end w D i))
               (filter (\<lambda>i. of_int (clip_start w i) < D
                          \<and> 1 \<le> clip_end w D i - of_int (clip_start w i)) [0..<nat n]))"
    using run_clips_windows [OF assms(2,3)] by blast
  ultimately show ?thesis
    unfolding a c by blast
qed

theorem clip_windows_invariant_witness:
  "snd (run_prepare (example_env (181 / 2)) (example_worker 30 10 0)) = Some (181 / 2)
   \<and> actual_clips (example_worker 30 10 0) (181 / 2) = Inr 4
   \<and> attempted (run (example_env (181 / 2)) (example_worker 30 10 0))
       = [(1, 0, 30), (2, 30, 60), (3, 60, 90)]
   \<and> length (attempted (run (example_env (181 / 2)) (example_worker 30 10 0)))
       \<le> nat (num_clips (example_worker 30 10 0))
   \<and> sorted_wrt (<)
       (map (fst \<circ> snd) (attempted (run (example_env (181 / 2)) (example_worker 30 10 0))))"
proof -
  have h1: "snd (run_prepare (example_env (181 / 2)) (example_worker 30 10 0)) = Some (181 / 2)"
    by code_simp
  have h2: "0 < clip_duration (example_worker 30 10 0)"
    by (simp add: example_worker_def)
  have h3: "overlap (example_worker 30 10 0) < clip_duration (example_worker 30 10 0)"
    by (simp add: example_worker_def)
  have a: "actual_clips (example_worker 30 10 0) (181 / 2) = Inr 4"
    by code_simp
  have b: "attempted (run (example_env (181 / 2)) (example_worker 30 10 0))
       = [(1, 0, 30), (2, 30, 60), (3, 60, 90)]"
    by code_simp
  note t = clip_windows_invariant [OF h1 h2 h3]
  note t [THEN conjunct2, THEN conjunct2, THEN conjunct1]
    t [THEN conjunct2, THEN conjunct2, THEN conjunct2, THEN conjunct1]
  with h1 a b show ?thesis by blast
qed

subsection \<open>Without overlap\<close>

lemma actual_clips_no_overlap:
  assumes "0 < D" "0 < clip_duration w" "overlap w \<le> 0"
  shows "actual_clips w D = Inr (min (num_clips w) \<lceil>D / of_int (clip_duration w)\<rceil>)"
proof -
  let ?L = "of_int (clip_duration w) :: real"
  have L: "0 < ?L" using assms by simp
  have q: "0 \<le> D / ?L" using assms by simp
  have "(0 < py_mod D ?L) = (of_int \<lfloor>D / ?L\<rfloor> < D / ?L)"
    using L by (simp add: py_mod_def pos_less_divide_eq mult.commute)
  also have "\<dots> = (D / ?L \<noteq> of_int \<lfloor>D / ?L\<rfloor>)"
    using of_int_floor_le [of "D / ?L"] by linarith
  finally have m: "(0 < py_mod D ?L) = (D / ?L \<noteq> of_int \<lfloor>D / ?L\<rfloor>)" .
  have "(if 0 < py_mod D ?L then py_int (D / ?L) + 1 else py_int (D / ?L)) = \<lceil>D / ?L\<rceil>"
    using q by (simp add: m py_int_def ceiling_altdef)
  with assms show ?thesis
    by (simp add: actual_clips_def)
qed

lemma window_no_overlap:
  assumes "overlap w \<le> 0"
  shows "clip_start w i = int i * clip_duration w"
    and "clip_end w D i = min (of_int ((int i + 1) * clip_duration w)) D"
  using assms by (simp_all add: clip_start_def clip_end_def algebra_simps)

lemma planned_index_inside:
  assumes "0 < clip_duration w" "int i < \<lceil>D / of_int (clip_duration w)\<rceil>"
  shows "of_int (int i * clip_duration w) < D"
proof -
  from assms(2) have "of_int (int i) < D / of_int (clip_duration w)"
    by (simp add: less_ceiling_iff)
  with assms(1) show ?thesis
    by (simp add: pos_less_divide_eq)
qed

text \<open>
  C5. For a video of duration \<open>D > 0\<close>, clip length \<open>L > 0\<close>, no overlap and \<open>N\<close> requested
  clips, the number of planned clips is \<open>min N \<lceil>D / L\<rceil>\<close>, the window of index \<open>i\<close> is
  \<open>[i * L, min ((i + 1) * L) D)\<close>, and every planned index starts inside the video. When
  nothing stops the job and every encode succeeds, the clips processed are these windows
  for the planned indices, in order, but for a window shorter than one second.
\<close>

theorem clips_without_overlap:
  assumes "0 < D" "0 < clip_duration w" "overlap w = 0"
  shows "actual_clips w D = Inr (min (num_clips w) \<lceil>D / of_int (clip_duration w)\<rceil>)
     \<and> (\<forall>i. clip_start w i = int i * clip_duration w
            \<and> clip_end w D i = min (of_int ((int i + 1) * clip_duration w)) D)
     \<and> (\<forall>i. int i < min (num_clips w) \<lceil>D / of_int (clip_duration w)\<rceil>
            \<longrightarrow> of_int (clip_start w i) < D)
     \<and> ((\<forall>i. \<not> stop_at e i \<and> (\<exists>sz. execute_clip (clip_run e i) = ClipOk sz)) \<longrightarrow>
          attempted (run_clips e w D) =
            map (\<lambda>i. (i + 1, int i * clip_duration w,
                       min (of_int ((int i + 1) * clip_duration w)) D))
              (filter (\<lambda>i. 1 \<le> min (of_int ((int i + 1) * clip_duration w)) D
                                 - of_int (int i * clip_duration w))
                 [0..<nat (min (num_clips w) \<lceil>D / of_int (clip_duration w)\<rceil>)]))"
proof -
  let ?n = "min (num_clips w) \<lceil>D / of_int (clip_duration w)\<rceil>"
  have o: "overlap w \<le> 0" "overlap w < clip_duration w"
    using assms by simp_all
  have n: "actual_clips w D = Inr ?n"
    using assms(1,2) o(1) by (rule actual_clips_no_overlap)
  have inside: "of_int (clip_start w i) < D" if "int i < ?n" for i
    using that planned_index_inside [OF assms(2), of i D]
    by (simp add: window_no_overlap [OF o(1)])
  have run: "attempted (run_clips e w D) =
            map (\<lambda>i. (i + 1, int i * clip_duration w,
                       min (of_int ((int i + 1) * clip_duration w)) D))
              (filter (\<lambda>i. 1 \<le> min (of_int ((int i + 1) * clip_duration w)) D
                                 - of_int (int i * clip_duration w)) [0..<nat ?n])"
    if ok: "\<forall>i. \<not> stop_at e i \<and> (\<exists>sz. execute_clip (clip_run e i) = ClipOk sz)"
  proof -
    from run_clips_windows [OF assms(2) o(2) ok, of D] n
    have "attempted (run_clips e w D) =
       map (\<lambda>i. (i + 1, clip_start w i, clip_end w D i))
         (filter (\<lambda>i. of_int (clip_start w i) < D
                  \<and> 1 \<le> clip_end w D i - of_int (clip_start w i)) [0..<nat ?n])"
      by simp
    also have "filter (\<lambda>i. of_int (clip_start w i) < D
                  \<and> 1 \<le> clip_end w D i - of_int (clip_start w i)) [0..<nat ?n]
        = filter (\<lambda>i. 1 \<le> clip_end w D i - of_int (clip_start w i)) [0..<nat ?n]"
      using inside by (intro filter_cong) (auto simp: zless_nat_eq_int_zless)
    finally show ?thesis
      by (simp add: window_no_overlap [OF o(1)])
  qed
  from n inside run show ?thesis
    by (simp add: window_no_overlap [OF o(1)])
qed

theorem clips_without_overlap_witness:
  "actual_clips (example_worker 30 10 0) 100 = Inr 4
   \<and> attempted (run_clips (example_env 100) (example_worker 30 10 0) 100)
       = [(1, 0, 30), (2, 30, 60), (3, 60, 90), (4, 90, 100)]"
proof -
  have h1: "(0::real) < 100" by simp
  have h2: "0 < clip_duration (example_worker 30 10 0)"
    by (simp add: example_worker_def)
  have h3: "overlap (example_worker 30 10 0) = 0"
    by (simp add: example_worker_def)
  have ok: "\<forall>i. \<not> stop_at (example_env 100) i
      \<and> (\<exists>sz. execute_clip (clip_run (example_env 100) i) = ClipOk sz)"
    by (simp add: example_env_def execute_clip_def clip_written_def ok_run_def)
  note t = clips_without_overlap [OF h1 h2 h3, of "example_env 100"]
  have n: "min (num_clips (example_worker 30 10 0))
      \<lceil>100 / (of_int (clip_duration (example_worker 30 10 0)) :: real)\<rceil> = 4"
    by (simp add: example_worker_def)
  note a = t [THEN conjunct1, unfolded n]
  note b = t [THEN conjunct2, THEN conjunct2, THEN conjunct2, THEN mp, OF ok, unfolded n]
  have "attempted (run_clips (example_env 100) (example_worker 30 10 0) 100)
       = [(1, 0, 30), (2, 30, 60), (3, 60, 90), (4, 90, 100)]"
    unfolding b by (simp add: example_worker_def upt_rec)
  with a show ?thesis by blast
qed

subsection \<open>With overlap\<close>





subsection \<open>Stopping\<close>

lemma run_loop_good:
  assumes "\<forall>i\<in>set xs. \<not> stop_at e i \<and> of_int (clip_start w i) < D
             \<and> 1 \<le> clip_end w D i - of_int (clip_start w i)
             \<and> (\<exists>sz. execute_clip (clip_run e i) = ClipOk sz)"
  shows "completed_clips (fst (run_loop e w D n xs c)) = map Suc xs"
    and "map fst (attempted (fst (run_loop e w D n xs c))) = map Suc xs"
    and "snd (run_loop e w D n xs c) = c + length xs"
  using assms
  by (induction xs arbitrary: c) auto

lemma run_loop_stop:
  "stop_at e k \<Longrightarrow> run_loop e w D n (k # rest) c = ([Status Stopping], c)"
  by simp

lemma run_finish_stopped:
  "stop_end e \<Longrightarrow> 0 < c \<Longrightarrow> run_finish e w c = [Status (Stopped c)]"
  by (simp add: run_finish_def)

lemma stopped_job:
  assumes prep: "snd (run_prepare e w) = Some D"
    and valid: "0 < clip_duration w" "overlap w < clip_duration w"
    and n: "actual_clips w D = Inr n"
    and k: "0 < k" "k < nat n"
    and long: "of_int (clip_start w (k - 1)) + 1 \<le> D"
    and ok: "\<forall>i<k. \<not> stop_at e i \<and> (\<exists>sz. execute_clip (clip_run e i) = ClipOk sz)"
    and stop: "stop_at e k" "stop_end e"
  shows "run e w = (fst (run_prepare e w) @ [Status (Creating n)]
                      @ fst (run_loop e w D n [0..<k] 0))
                   @ [Status Stopping, Status (Stopped k)]"
    and "completed_clips (fst (run_loop e w D n [0..<k] 0)) = map Suc [0..<k]"
    and "map fst (attempted (fst (run_loop e w D n [0..<k] 0))) = map Suc [0..<k]"
    and "terminal_events (fst (run_loop e w D n [0..<k] 0)) = []"
proof -
  have good: "\<forall>i\<in>set [0..<k]. \<not> stop_at e i \<and> of_int (clip_start w i) < D
             \<and> 1 \<le> clip_end w D i - of_int (clip_start w i)
             \<and> (\<exists>sz. execute_clip (clip_run e i) = ClipOk sz)"
  proof
    fix i assume "i \<in> set [0..<k]"
    then have i: "i \<le> k - 1" "i < k" by simp_all
    from i(1) have "clip_start w i \<le> clip_start w (k - 1)"
      by (rule clip_start_le [OF valid])
    then have "(of_int (clip_start w i) :: real) \<le> of_int (clip_start w (k - 1))"
      by (simp only: of_int_le_iff)
    with long have s: "of_int (clip_start w i) + 1 \<le> D" by linarith
    with valid(1) have "1 \<le> clip_end w D i - of_int (clip_start w i)"
      by (simp add: clip_end_def min_def)
    with s ok i(2) show "\<not> stop_at e i \<and> of_int (clip_start w i) < D
             \<and> 1 \<le> clip_end w D i - of_int (clip_start w i)
             \<and> (\<exists>sz. execute_clip (clip_run e i) = ClipOk sz)"
      by simp
  qed
  note g = run_loop_good [OF good, of n 0]
  show "completed_clips (fst (run_loop e w D n [0..<k] 0)) = map Suc [0..<k]"
    and "map fst (attempted (fst (run_loop e w D n [0..<k] 0))) = map Suc [0..<k]"
    by (rule g)+
  show "terminal_events (fst (run_loop e w D n [0..<k] 0)) = []"
    using good by (intro run_loop_quiet) blast
  have split: "[0..<nat n] = [0..<k] @ k # [Suc k..<nat n]"
  proof -
    have "[0..<k + (nat n - k)] = [0..<k] @ [k..<k + (nat n - k)]"
      by (rule upt_add_eq_append) simp
    with k(2) show ?thesis
      by (simp add: upt_conv_Cons)
  qed
  have "run_loop e w D n [0..<nat n] 0
      = (fst (run_loop e w D n [0..<k] 0) @ [Status Stopping], k)"
    unfolding split using good
    by (subst run_loop_append) (auto simp: run_loop_stop [OF stop(1)] g(3) simp del: run_loop.simps)
  moreover from k have "n \<noteq> 0" by auto
  ultimately have "run_clips e w D = [Status (Creating n)]
      @ fst (run_loop e w D n [0..<k] 0) @ [Status Stopping] @ [Status (Stopped k)]"
    using n by (simp add: run_clips_cases run_finish_stopped [OF stop(2) k(1)])
  with prep show "run e w = (fst (run_prepare e w) @ [Status (Creating n)]
                      @ fst (run_loop e w D n [0..<k] 0))
                   @ [Status Stopping, Status (Stopped k)]"
    by (simp add: run_cases)
qed

text \<open>
  C4, as the claim states it: stop is pressed before the first of five planned clips.
  The worker sees it at the top of the first iteration, runs no clip command, and the job
  ends with the error signal "No clips were created successfully."
\<close>

theorem stop_before_first_clip_is_error:
  "stop_at (stop_seen_at 0) 0
   \<and> actual_clips (example_worker 30 5 0) 150 = Inr 5
   \<and> clip_commands (run (stop_seen_at 0) (example_worker 30 5 0)) = []
   \<and> terminal_events (run (stop_seen_at 0) (example_worker 30 5 0)) = [Error NoClips]"
  by code_simp

text \<open>
  C4, amended. A job on a valid request plans \<open>n\<close> clips. The worker sees the stop flag
  set at the top of iteration \<open>k\<close>, with \<open>0 < k < n\<close>, after each of the first \<open>k\<close> clips
  (each at least one second long) was encoded and verified, and the flag is still set
  after the loop. Then the job has processed and completed exactly the clips \<open>1 .. k\<close>,
  has run exactly \<open>k\<close> clip commands, emits neither \<open>error\<close> nor \<open>finished\<close>, and ends with
  the status "Stopping..." followed by the status "Operation stopped" carrying \<open>k\<close>.
\<close>

theorem stop_after_success_is_status:
  assumes "snd (run_prepare e w) = Some D"
    and "0 < clip_duration w" "overlap w < clip_duration w"
    and "actual_clips w D = Inr n"
    and "0 < k" "k < nat n"
    and "of_int (clip_start w (k - 1)) + 1 \<le> D"
    and "\<forall>i<k. \<not> stop_at e i \<and> (\<exists>sz. execute_clip (clip_run e i) = ClipOk sz)"
    and "stop_at e k" "stop_end e"
  shows "terminal_events (run e w) = []
     \<and> completed_clips (run e w) = map Suc [0..<k]
     \<and> map fst (attempted (run e w)) = map Suc [0..<k]
     \<and> length (clip_commands (run e w)) = k
     \<and> (\<exists>tr. run e w = tr @ [Status Stopping, Status (Stopped k)])"
proof -
  note s = stopped_job [OF assms]
  have "terminal_events (run e w) = []"
    by (simp add: s run_prepare_Some(2) [OF assms(1)])
  moreover have "completed_clips (run e w) = map Suc [0..<k]"
    by (simp add: s(1) s(2) run_prepare_quiet)
  moreover have a: "map fst (attempted (run e w)) = map Suc [0..<k]"
    by (simp add: s(1) s(3) run_prepare_quiet)
  moreover have "length (clip_commands (run e w)) = length (attempted (run e w))"
    by (simp add: s(1) run_prepare_quiet run_loop_clip_commands)
  with a have "length (clip_commands (run e w)) = k"
    by (metis length_map length_upt minus_nat.diff_0)
  moreover have "\<exists>tr. run e w = tr @ [Status Stopping, Status (Stopped k)]"
    using s(1) by blast
  ultimately show ?thesis by blast
qed

theorem stop_after_success_is_status_witness:
  "terminal_events (run (stop_seen_at 2) (example_worker 30 5 0)) = []
   \<and> completed_clips (run (stop_seen_at 2) (example_worker 30 5 0)) = [1, 2]
   \<and> length (clip_commands (run (stop_seen_at 2) (example_worker 30 5 0))) = 2
   \<and> (\<exists>tr. run (stop_seen_at 2) (example_worker 30 5 0)
             = tr @ [Status Stopping, Status (Stopped 2)])"
proof -
  have h1: "snd (run_prepare (stop_seen_at 2) (example_worker 30 5 0)) = Some 150"
    by code_simp
  have h2: "0 < clip_duration (example_worker 30 5 0)"
    and h3: "overlap (example_worker 30 5 0) < clip_duration (example_worker 30 5 0)"
    by (simp_all add: example_worker_def)
  have h4: "actual_clips (example_worker 30 5 0) 150 = Inr 5"
    by code_simp
  have h5: "(0::nat) < 2" and h6: "(2::nat) < nat 5"
    by simp_all
  have h7: "of_int (clip_start (example_worker 30 5 0) (2 - 1)) + 1 \<le> (150::real)"
    by (simp add: clip_start_def example_worker_def)
  have h8: "\<forall>i<2. \<not> stop_at (stop_seen_at 2) i
      \<and> (\<exists>sz. execute_clip (clip_run (stop_seen_at 2) i) = ClipOk sz)"
    by (simp add: stop_seen_at_def example_env_def execute_clip_def clip_written_def ok_run_def)
  have h9: "stop_at (stop_seen_at 2) 2" and h10: "stop_end (stop_seen_at 2)"
    by (simp_all add: stop_seen_at_def)
  have m: "map Suc [0..<2] = [1, 2]"
    by (simp add: upt_rec)
  from stop_after_success_is_status [OF h1 h2 h3 h4 h5 h6 h7 h8 h9 h10]
  show ?thesis unfolding m by blast
qed

subsection \<open>A stop that comes too late\<close>

lemma run_loop_all_completed:
  assumes "\<forall>i\<in>set xs. \<not> stop_at e i \<and> (\<exists>sz. execute_clip (clip_run e i) = ClipOk sz)"
  shows "map fst (attempted (fst (run_loop e w D n xs c)))
     = completed_clips (fst (run_loop e w D n xs c))"
  using assms
  by (induction xs arbitrary: c) auto

lemma first_clip_completed:
  assumes "0 < clip_duration w" "1 \<le> D" "\<not> stop_at e 0"
    and "\<exists>sz. execute_clip (clip_run e 0) = ClipOk sz"
  shows "completed_clips (fst (run_loop e w D n (0 # rest) c)) \<noteq> []"
proof -
  have "clip_start w 0 = 0"
    by (simp add: clip_start_def)
  moreover from assms(1,2) have "1 \<le> clip_end w D 0"
    by (simp add: clip_end_def clip_start_def min_def)
  ultimately show ?thesis
    using assms by auto
qed

text \<open>
  C10. A job on a valid request for a video of at least one second plans \<open>n > 0\<close> clips.
  The worker never sees the stop flag at the top of an iteration and every encode
  succeeds, but the flag is set when the worker reads it after the loop. Then every clip
  processed is completed, at least one is, and the job emits neither \<open>finished\<close> nor
  \<open>error\<close>: it ends with the status "Operation stopped" carrying the number of clips
  created.
\<close>

theorem late_stop_reports_no_terminal_event:
  assumes "snd (run_prepare e w) = Some D"
    and "0 < clip_duration w" "overlap w < clip_duration w" "1 \<le> D"
    and "actual_clips w D = Inr n" "0 < n"
    and "\<forall>i. int i < n \<longrightarrow> \<not> stop_at e i \<and> (\<exists>sz. execute_clip (clip_run e i) = ClipOk sz)"
    and "stop_end e"
  shows "terminal_events (run e w) = []
     \<and> completed_clips (run e w) \<noteq> []
     \<and> map fst (attempted (run e w)) = completed_clips (run e w)
     \<and> (\<exists>tr. run e w = tr @ [Status (Stopped (length (completed_clips (run e w))))])"
proof -
  let ?l = "run_loop e w D n [0..<nat n] 0"
  have ok: "\<forall>i\<in>set [0..<nat n]. \<not> stop_at e i
      \<and> (\<exists>sz. execute_clip (clip_run e i) = ClipOk sz)"
    using assms(7) by (simp add: zless_nat_eq_int_zless)
  have quiet: "terminal_events (fst ?l) = []"
    using ok by (rule run_loop_quiet)
  have same: "map fst (attempted (fst ?l)) = completed_clips (fst ?l)"
    using ok by (rule run_loop_all_completed)
  have "[0..<nat n] = 0 # [Suc 0..<nat n]"
    using assms(6) by (simp add: upt_conv_Cons)
  moreover from assms(6,7) have "\<not> stop_at e 0" "\<exists>sz. execute_clip (clip_run e 0) = ClipOk sz"
    by simp_all
  ultimately have some: "completed_clips (fst ?l) \<noteq> []"
    using first_clip_completed [OF assms(2,4), of e n "[Suc 0..<nat n]" 0] by simp
  have count: "snd ?l = length (completed_clips (fst ?l))"
    using run_loop_count [of e w D n "[0..<nat n]" 0] by simp
  with some have pos: "0 < snd ?l" by simp
  from assms(5,6) have clips: "run_clips e w D =
      ([Status (Creating n)] @ fst ?l) @ [Status (Stopped (snd ?l))]"
    by (simp add: run_clips_cases run_finish_stopped [OF assms(8) pos])
  have r: "run e w = (fst (run_prepare e w) @ [Status (Creating n)] @ fst ?l)
      @ [Status (Stopped (snd ?l))]"
    using assms(1) clips by (simp add: run_cases)
  have c: "completed_clips (run e w) = completed_clips (fst ?l)"
    by (simp add: r run_prepare_quiet)
  have "terminal_events (run e w) = []"
    by (simp add: r quiet run_prepare_Some(2) [OF assms(1)])
  moreover have "completed_clips (run e w) \<noteq> []"
    using some by (simp add: c)
  moreover have "map fst (attempted (run e w)) = completed_clips (run e w)"
    using same by (simp add: r run_prepare_quiet)
  moreover have "\<exists>tr. run e w = tr @ [Status (Stopped (length (completed_clips (run e w))))]"
    using r unfolding c count by blast
  ultimately show ?thesis by blast
qed

theorem late_stop_reports_no_terminal_event_witness:
  "terminal_events (run stop_during_last (example_worker 30 5 0)) = []
   \<and> completed_clips (run stop_during_last (example_worker 30 5 0)) = [1, 2, 3, 4, 5]
   \<and> (\<exists>tr. run stop_during_last (example_worker 30 5 0) = tr @ [Status (Stopped 5)])"
proof -
  have h1: "snd (run_prepare stop_during_last (example_worker 30 5 0)) = Some 150"
    by code_simp
  have h2: "0 < clip_duration (example_worker 30 5 0)"
    and h3: "overlap (example_worker 30 5 0) < clip_duration (example_worker 30 5 0)"
    by (simp_all add: example_worker_def)
  have h4: "(1::real) \<le> 150" by simp
  have h5: "actual_clips (example_worker 30 5 0) 150 = Inr 5"
    by code_simp
  have h6: "(0::int) < 5" by simp
  have h7: "\<forall>i. int i < 5 \<longrightarrow> \<not> stop_at stop_during_last i
      \<and> (\<exists>sz. execute_clip (clip_run stop_during_last i) = ClipOk sz)"
    by (simp add: stop_during_last_def example_env_def execute_clip_def clip_written_def
        ok_run_def)
  have h8: "stop_end stop_during_last"
    by (simp add: stop_during_last_def)
  have c: "completed_clips (run stop_during_last (example_worker 30 5 0)) = [1, 2, 3, 4, 5]"
    by code_simp
  have l: "length [1, 2, 3, 4, 5 :: nat] = 5"
    by simp
  from late_stop_reports_no_terminal_event [OF h1 h2 h3 h4 h5 h6 h7 h8]
  show ?thesis unfolding c l by blast
qed

end
